theory Spec2Isabelle
  imports Complex_Main
begin

section \<open>Data model\<close>

text \<open>
  The records the seat-layout view receives from \<^verbatim>\<open>GET /api/halls/{id}/seats\<close>.
  Only the fields the component reads are kept. The truthiness tests of the source
  (\<^verbatim>\<open>s.is_occupied\<close>, \<^verbatim>\<open>s.is_available\<close>) are read as booleans; an absent
  \<^verbatim>\<open>current_user_name\<close> or \<^verbatim>\<open>check_in_time\<close> is \<open>None\<close>.
\<close>

record seat =
  seat_id :: int
  seat_number :: string
  is_occupied :: bool
  is_available :: bool
  current_user_name :: "string option"
  check_in_time :: "int option"

text \<open>
  What \<^verbatim>\<open>renderSeatGrid\<close> pushes for one grid position: a \<^verbatim>\<open>SeatBox\<close> element
  carrying the seat, or the empty placeholder \<^verbatim>\<open>Box\<close> whose key is
  \<^verbatim>\<open>empty-${row}-${col}\<close>.
\<close>

datatype cell = SeatBox seat | EmptyBox nat nat

section \<open>Number to string, as a template literal does it\<close>

definition digit_char :: "nat \<Rightarrow> char" where
  "digit_char d = char_of (48 + d)"

fun decimal :: "nat \<Rightarrow> string" where
  "decimal n = (if n < 10 then [digit_char n] else decimal (n div 10) @ [digit_char (n mod 10)])"

declare decimal.simps [simp del]

section \<open>The seat grid (Dashboard.js, SeatLayout, renderSeatGrid)\<close>

text \<open>
  \<^verbatim>\<open>const seatNumber = `R${row + 1}S${col + 1}`;\<close>
\<close>

definition seatNumber :: "nat \<Rightarrow> nat \<Rightarrow> string" where
  "seatNumber row col = ''R'' @ decimal (row + 1) @ ''S'' @ decimal (col + 1)"

text \<open>
  The body of the inner loop: \<^verbatim>\<open>seats.find(s => s.seat_number === seatNumber)\<close>
  returns the first seat with that number or \<^verbatim>\<open>undefined\<close>; a found seat is an
  object, hence truthy, and gives a \<^verbatim>\<open>SeatBox\<close>, otherwise the placeholder is pushed.
\<close>

definition cell_at :: "seat list \<Rightarrow> nat \<Rightarrow> nat \<Rightarrow> cell" where
  "cell_at seats row col =
     (case find (\<lambda>s. seat_number s = seatNumber row col) seats of
        Some seat \<Rightarrow> SeatBox seat
      | None \<Rightarrow> EmptyBox row col)"

text \<open>
  \<^verbatim>\<open>for (let col = 0; col < seatsPerRow; col++) { ... rowSeats.push(...) }\<close>
\<close>

function col_loop :: "seat list \<Rightarrow> nat \<Rightarrow> nat \<Rightarrow> nat \<Rightarrow> cell list \<Rightarrow> cell list" where
  "col_loop seats seatsPerRow row col rowSeats =
     (if col < seatsPerRow
      then col_loop seats seatsPerRow row (col + 1) (rowSeats @ [cell_at seats row col])
      else rowSeats)"
  by pat_completeness auto
termination
  by (relation "measure (\<lambda>(seats, seatsPerRow, row, col, rowSeats). seatsPerRow - col)") auto

declare col_loop.simps [simp del]

text \<open>
  \<^verbatim>\<open>for (let row = 0; row < rows; row++) { const rowSeats = []; ...; seatGrid.push(<Box key={row}>{rowSeats}</Box>) }\<close>
\<close>

function row_loop :: "seat list \<Rightarrow> nat \<Rightarrow> nat \<Rightarrow> nat \<Rightarrow> cell list list \<Rightarrow> cell list list" where
  "row_loop seats rows seatsPerRow row seatGrid =
     (if row < rows
      then row_loop seats rows seatsPerRow (row + 1)
             (seatGrid @ [col_loop seats seatsPerRow row 0 []])
      else seatGrid)"
  by pat_completeness auto
termination
  by (relation "measure (\<lambda>(seats, rows, seatsPerRow, row, seatGrid). rows - row)") auto

declare row_loop.simps [simp del]

text \<open>
  The grid for a shape of \<open>rows\<close> by \<open>seatsPerRow\<close>; the component fixes the shape with
  \<^verbatim>\<open>const seatsPerRow = 10; const rows = 5;\<close>.
\<close>

definition seat_grid :: "nat \<Rightarrow> nat \<Rightarrow> seat list \<Rightarrow> cell list list" where
  "seat_grid rows seatsPerRow seats = row_loop seats rows seatsPerRow 0 []"

definition renderSeatGrid :: "seat list \<Rightarrow> cell list list" where
  "renderSeatGrid seats = seat_grid 5 10 seats"

section \<open>Derived counts (Dashboard.js, SeatLayout)\<close>

text \<open>
  \<^verbatim>\<open>const occupiedSeats = seats.filter(s => s.is_occupied).length;\<close>
  \<^verbatim>\<open>const availableSeats = seats.filter(s => s.is_available && !s.is_occupied).length;\<close>
\<close>

definition occupiedSeats :: "seat list \<Rightarrow> nat" where
  "occupiedSeats seats = length (filter (\<lambda>s. is_occupied s) seats)"

definition availableSeats :: "seat list \<Rightarrow> nat" where
  "availableSeats seats = length (filter (\<lambda>s. is_available s \<and> \<not> is_occupied s) seats)"

section \<open>The selected-seat panel (Dashboard.js, SeatLayout, "Selected Seat Info")\<close>

text \<open>
  \<^verbatim>\<open>selectedSeat.seat_number.match(/\d+/)\<close>: the leftmost, longest run of the ASCII digits
  \<^verbatim>\<open>0\<close> to \<^verbatim>\<open>9\<close>, or \<^verbatim>\<open>null\<close> when the string has no digit.
\<close>

definition isDigit :: "char \<Rightarrow> bool" where
  "isDigit c = (c \<in> set ''0123456789'')"

definition match_digits :: "string \<Rightarrow> string option" where
  "match_digits s =
     (case dropWhile (\<lambda>c. \<not> isDigit c) s of
        [] \<Rightarrow> None
      | d # ds \<Rightarrow> Some (takeWhile isDigit (d # ds)))"

text \<open>
  The arithmetic operators \<^verbatim>\<open>/\<close> and \<^verbatim>\<open>%\<close> convert the matched digit string to
  the number it denotes in base ten. Numbers are exact here, as they are in the source for
  digit runs below \<open>2 ^ 53\<close>.
\<close>

definition digit_value :: "char \<Rightarrow> nat" where
  "digit_value c = of_char c - 48"

definition to_number :: "string \<Rightarrow> nat" where
  "to_number ds = foldl (\<lambda>n c. 10 * n + digit_value c) 0 ds"

datatype js_error = TypeError

text \<open>
  \<^verbatim>\<open>Row {Math.ceil(selectedSeat.seat_number.match(/\d+/)[0] / 10)},\<close>
  \<^verbatim>\<open>Column {selectedSeat.seat_number.match(/\d+/)[0] % 10 || 10}\<close>.
  Indexing the \<^verbatim>\<open>null\<close> of a failed match throws a \<^verbatim>\<open>TypeError\<close>; a remainder of
  \<^verbatim>\<open>0\<close> is falsy, so \<^verbatim>\<open>||\<close> yields \<^verbatim>\<open>10\<close>. The result is the pair (Row, Column).
\<close>

definition position :: "string \<Rightarrow> js_error + int \<times> int" where
  "position seat_no =
     (case match_digits seat_no of
        None \<Rightarrow> Inl TypeError
      | Some m \<Rightarrow>
          Inr (\<lceil>real (to_number m) / 10\<rceil>,
               (if to_number m mod 10 = 0 then 10 else int (to_number m mod 10))))"

text \<open>
  \<^verbatim>\<open>{selectedSeat && ( <Paper> ... Position ... </Paper> )}\<close>: nothing is rendered while no
  seat is selected; otherwise the panel needs the position.
\<close>

definition selectedSeatInfo :: "seat option \<Rightarrow> js_error + (string \<times> int \<times> int) option" where
  "selectedSeatInfo sel =
     (case sel of
        None \<Rightarrow> Inr None
      | Some s \<Rightarrow>
          (case position (seat_number s) of
             Inl e \<Rightarrow> Inl e
           | Inr (r, c) \<Rightarrow> Inr (Some (seat_number s, r, c))))"

section \<open>Session duration (Dashboard.js, the active-sessions table)\<close>

record session =
  session_id :: int
  user_name :: string
  student_id :: string
  session_seat_number :: string
  session_hall_name :: string
  session_check_in_time :: int

text \<open>
  \<^verbatim>\<open>const checkInTime = new Date(session.check_in_time);\<close>
  \<^verbatim>\<open>const duration = Math.floor((Date.now() - checkInTime) / (1000 * 60));\<close>
  Timestamps are milliseconds since the epoch; \<open>now\<close> is the value of \<^verbatim>\<open>Date.now()\<close>.
  The division is the division of numbers, the rounding is \<^verbatim>\<open>Math.floor\<close>. Numbers are
  exact here, as they are in the source for timestamps of this size.
\<close>

definition duration :: "int \<Rightarrow> session \<Rightarrow> int" where
  "duration now s = \<lfloor>real_of_int (now - session_check_in_time s) / (1000 * 60)\<rfloor>"

section \<open>Usage chart data (Dashboard.js, fetchUsageData)\<close>

text \<open>
  One entry of \<^verbatim>\<open>data.daily_stats\<close>. \<open>stat_date\<close> is the time value of
  \<^verbatim>\<open>new Date(stat.date)\<close> in milliseconds, \<open>None\<close> when that is an Invalid Date (a
  \<^verbatim>\<open>date\<close> that is absent or does not parse). A \<^verbatim>\<open>null\<close> or absent \<^verbatim>\<open>avg_duration\<close>
  is \<open>None\<close>.
\<close>

record daily_stat =
  stat_date :: "int option"
  total_sessions :: int
  avg_duration :: "real option"

record chart_point =
  date :: string
  sessions :: int
  avgDuration :: int

text \<open>
  \<^verbatim>\<open>format(date, 'MMM dd')\<close> is the function of the library date-fns, which is not part of
  the repository. It throws \<^verbatim>\<open>RangeError: Invalid time value\<close> when the date is invalid;
  the text it gives a valid date is the parameter \<open>label\<close>.
\<close>

datatype date_fns_error = RangeError

definition format_date :: "(int \<Rightarrow> string) \<Rightarrow> int option \<Rightarrow> date_fns_error + string" where
  "format_date label d = (case d of None \<Rightarrow> Inl RangeError | Some t \<Rightarrow> Inr (label t))"

text \<open>\<^verbatim>\<open>Math.round\<close> rounds to the nearest integer, a half towards plus infinity.\<close>

definition Math_round :: "real \<Rightarrow> int" where
  "Math_round x = \<lfloor>x + 1 / 2\<rfloor>"

text \<open>
  \<^verbatim>\<open>stat.avg_duration || 0\<close>: the right operand when the left one is falsy
  (\<^verbatim>\<open>null\<close>, \<^verbatim>\<open>undefined\<close> or \<^verbatim>\<open>0\<close>).
\<close>

definition or_zero :: "real option \<Rightarrow> real" where
  "or_zero a = (case a of None \<Rightarrow> 0 | Some x \<Rightarrow> (if x = 0 then 0 else x))"

text \<open>
  The callback of the \<^verbatim>\<open>map\<close>:
  \<^verbatim>\<open>stat => ({ date: format(new Date(stat.date), 'MMM dd'), sessions: stat.total_sessions,\<close>
  \<^verbatim>\<open>avgDuration: Math.round(stat.avg_duration || 0) })\<close>. The \<^verbatim>\<open>date\<close> property is
  evaluated first; when \<^verbatim>\<open>format\<close> throws, no object is built.
\<close>

definition chart_point_of :: "(int \<Rightarrow> string) \<Rightarrow> daily_stat \<Rightarrow> date_fns_error + chart_point" where
  "chart_point_of label stat =
     (case format_date label (stat_date stat) of
        Inl e \<Rightarrow> Inl e
      | Inr d \<Rightarrow>
          Inr \<lparr>date = d,
               sessions = total_sessions stat,
               avgDuration = Math_round (or_zero (avg_duration stat))\<rparr>)"

text \<open>
  \<^verbatim>\<open>Array.prototype.map\<close> with a callback that may throw: the entries are visited in
  order and the first exception leaves the \<^verbatim>\<open>map\<close>, with no array returned.
\<close>

fun map_throwing :: "('a \<Rightarrow> 'e + 'b) \<Rightarrow> 'a list \<Rightarrow> 'e + 'b list" where
  "map_throwing f [] = Inr []"
| "map_throwing f (x # xs) =
     (case f x of
        Inl e \<Rightarrow> Inl e
      | Inr y \<Rightarrow> (case map_throwing f xs of Inl e \<Rightarrow> Inl e | Inr ys \<Rightarrow> Inr (y # ys)))"

text \<open>
  \<^verbatim>\<open>const chartData = data.daily_stats.map(...).reverse();\<close>
\<close>

definition chartData :: "(int \<Rightarrow> string) \<Rightarrow> daily_stat list \<Rightarrow> date_fns_error + chart_point list" where
  "chartData label daily_stats =
     (case map_throwing (chart_point_of label) daily_stats of
        Inl e \<Rightarrow> Inl e
      | Inr points \<Rightarrow> Inr (rev points))"

section \<open>The seat-layout view as a state machine (Dashboard.js, SeatLayout)\<close>

record hall =
  hall_id :: int
  hall_name :: string

text \<open>
  The component's state (its five \<^verbatim>\<open>useState\<close> cells) and, beside it, the requests that
  have been sent and not yet settled: the calls of \<^verbatim>\<open>getHalls\<close>, and the hall ids of the
  calls of \<^verbatim>\<open>getHallSeats\<close> in the order they were issued. \<open>consoleErrors\<close> counts the
  calls of \<^verbatim>\<open>console.error\<close>.
\<close>

record seat_layout =
  halls :: "hall list"
  selectedHallId :: int
  seats :: "seat list"
  seatsLoading :: bool
  selectedSeat :: "seat option"
  hallsInFlight :: nat
  seatsInFlight :: "int list"
  consoleErrors :: nat

text \<open>A hall id is a number: it is falsy exactly when it is \<^verbatim>\<open>0\<close>.\<close>

definition truthy :: "int \<Rightarrow> bool" where
  "truthy v = (v \<noteq> 0)"

text \<open>
  \<^verbatim>\<open>fetchSeats\<close> up to its \<^verbatim>\<open>await\<close>: \<^verbatim>\<open>setLoading(true)\<close> and the request
  \<^verbatim>\<open>ApiService.getHallSeats(selectedHallId)\<close>. The seats are not touched.
\<close>

definition fetchSeats :: "seat_layout \<Rightarrow> seat_layout" where
  "fetchSeats st =
     st\<lparr>seatsLoading := True, seatsInFlight := seatsInFlight st @ [selectedHallId st]\<rparr>"

text \<open>
  The rest of \<^verbatim>\<open>fetchSeats\<close>: \<^verbatim>\<open>setSeats(data)\<close> when the request resolves,
  \<^verbatim>\<open>console.error\<close> when it rejects, and \<^verbatim>\<open>setLoading(false)\<close> in both cases.
\<close>

definition fetchSeats_resolved :: "seat list \<Rightarrow> seat_layout \<Rightarrow> seat_layout" where
  "fetchSeats_resolved data st = st\<lparr>seats := data, seatsLoading := False\<rparr>"

definition fetchSeats_rejected :: "seat_layout \<Rightarrow> seat_layout" where
  "fetchSeats_rejected st = st\<lparr>consoleErrors := consoleErrors st + 1, seatsLoading := False\<rparr>"

text \<open>
  \<^verbatim>\<open>setSelectedHallId(v)\<close> followed by the effect that depends on \<^verbatim>\<open>[selectedHallId]\<close>:
  setting the value the state already has changes nothing; a new value re-runs the effect
  \<^verbatim>\<open>if (selectedHallId) { fetchSeats(); }\<close>.
\<close>

definition setSelectedHallId :: "int \<Rightarrow> seat_layout \<Rightarrow> seat_layout" where
  "setSelectedHallId v st =
     (if v = selectedHallId st then st
      else if truthy v then fetchSeats (st\<lparr>selectedHallId := v\<rparr>)
      else st\<lparr>selectedHallId := v\<rparr>)"

text \<open>
  \<^verbatim>\<open>fetchHalls\<close> up to its \<^verbatim>\<open>await\<close>, and its continuation. The function is called
  from the mount effect only, so the \<^verbatim>\<open>selectedHallId\<close> it tests after the
  \<^verbatim>\<open>await\<close> is the one of the render that created it: the argument \<open>closure_selectedHallId\<close>.
\<close>

definition fetchHalls :: "seat_layout \<Rightarrow> seat_layout" where
  "fetchHalls st = st\<lparr>hallsInFlight := hallsInFlight st + 1\<rparr>"

definition fetchHalls_resolved :: "int \<Rightarrow> hall list \<Rightarrow> seat_layout \<Rightarrow> seat_layout" where
  "fetchHalls_resolved closure_selectedHallId data st =
     (if length data > 0 \<and> \<not> truthy closure_selectedHallId
      then setSelectedHallId (hall_id (data ! 0)) (st\<lparr>halls := data\<rparr>)
      else st\<lparr>halls := data\<rparr>)"

definition fetchHalls_rejected :: "seat_layout \<Rightarrow> seat_layout" where
  "fetchHalls_rejected st = st\<lparr>consoleErrors := consoleErrors st + 1\<rparr>"

text \<open>
  The first render (\<^verbatim>\<open>useState([])\<close>, \<^verbatim>\<open>useState(1)\<close>, \<^verbatim>\<open>useState([])\<close>,
  \<^verbatim>\<open>useState(true)\<close>, \<^verbatim>\<open>useState(null)\<close>) and the two effects that run after it.
\<close>

definition first_render :: seat_layout where
  "first_render =
     \<lparr>halls = [], selectedHallId = 1, seats = [], seatsLoading = True, selectedSeat = None,
      hallsInFlight = 0, seatsInFlight = [], consoleErrors = 0\<rparr>"

definition mount :: seat_layout where
  "mount =
     (let st = fetchHalls first_render
      in if truthy (selectedHallId st) then fetchSeats st else st)"

text \<open>
  What can happen to the mounted view: a response to a request in flight, the user choosing
  a hall in the \<^verbatim>\<open>Select\<close>, the Refresh button (\<^verbatim>\<open>handleRefresh\<close>), a click on a seat
  (\<^verbatim>\<open>handleSeatClick\<close>). A response to a request that is not in flight cannot arrive.
\<close>

datatype layout_event =
    HallsResolved "hall list"
  | HallsRejected
  | SeatsResolved int "seat list"
  | SeatsRejected int
  | SelectHall int
  | Refresh
  | SeatClick seat

fun layout_step :: "layout_event \<Rightarrow> seat_layout \<Rightarrow> seat_layout" where
  "layout_step (HallsResolved data) st =
     (if hallsInFlight st > 0
      then fetchHalls_resolved (selectedHallId first_render) data
             (st\<lparr>hallsInFlight := hallsInFlight st - 1\<rparr>)
      else st)"
| "layout_step HallsRejected st =
     (if hallsInFlight st > 0
      then fetchHalls_rejected (st\<lparr>hallsInFlight := hallsInFlight st - 1\<rparr>)
      else st)"
| "layout_step (SeatsResolved h data) st =
     (if h \<in> set (seatsInFlight st)
      then fetchSeats_resolved data (st\<lparr>seatsInFlight := remove1 h (seatsInFlight st)\<rparr>)
      else st)"
| "layout_step (SeatsRejected h) st =
     (if h \<in> set (seatsInFlight st)
      then fetchSeats_rejected (st\<lparr>seatsInFlight := remove1 h (seatsInFlight st)\<rparr>)
      else st)"
| "layout_step (SelectHall v) st = setSelectedHallId v st"
| "layout_step Refresh st = fetchSeats st"
| "layout_step (SeatClick s) st = st\<lparr>selectedSeat := Some s\<rparr>"

definition layout_run :: "layout_event list \<Rightarrow> seat_layout \<Rightarrow> seat_layout" where
  "layout_run es st = foldl (\<lambda>s e. layout_step e s) st es"

text \<open>
  The events that apply a seats response, that is, the ones that reach \<^verbatim>\<open>setSeats(data)\<close>.
\<close>

fun seats_response :: "layout_event \<Rightarrow> bool" where
  "seats_response (SeatsResolved h data) = True"
| "seats_response e = False"

section \<open>The dashboard view as a state machine (Dashboard.js, Dashboard)\<close>

record overview_snapshot =
  total_seats :: int
  occupied_seats :: int
  available_seats :: int
  occupancy_rate :: real
  sessions_today :: int
  avg_duration_minutes :: real

datatype request = GetOverview | GetActiveSessions | GetUsageAnalytics nat

text \<open>
  The component's state, whether the interval of the mount effect is still registered, the
  requests in flight, the number of requests issued so far and the number of
  \<^verbatim>\<open>console.error\<close> calls. Each state field holds the value its setter was last called
  with, also after the view has been unmounted.
\<close>

record dashboard =
  overview :: overview_snapshot
  activeSessions :: "session list"
  usageData :: "chart_point list"
  loading :: bool
  interval :: bool
  inFlight :: "request list"
  issued :: nat
  errorLog :: nat

definition send :: "request \<Rightarrow> dashboard \<Rightarrow> dashboard" where
  "send r st = st\<lparr>inFlight := inFlight st @ [r], issued := issued st + 1\<rparr>"

text \<open>
  Each of the three fetch functions, up to its \<^verbatim>\<open>await\<close>, sends one request.
\<close>

definition fetchOverview :: "dashboard \<Rightarrow> dashboard" where
  "fetchOverview st = send GetOverview st"

definition fetchActiveSessions :: "dashboard \<Rightarrow> dashboard" where
  "fetchActiveSessions st = send GetActiveSessions st"

definition fetchUsageData :: "dashboard \<Rightarrow> dashboard" where
  "fetchUsageData st = send (GetUsageAnalytics 7) st"

text \<open>
  Their continuations: the \<^verbatim>\<open>try\<close> branch applies the data with the state setter, the
  \<^verbatim>\<open>catch\<close> branch logs. Neither reads a flag telling whether the view is still mounted.
  In \<^verbatim>\<open>fetchUsageData\<close> the chart data is computed inside the \<^verbatim>\<open>try\<close>: when that
  throws, control goes to the \<^verbatim>\<open>catch\<close>, which logs and calls \<^verbatim>\<open>setLoading(false)\<close>, and
  \<^verbatim>\<open>setUsageData\<close> is not called.
\<close>

definition fetchOverview_resolved :: "overview_snapshot \<Rightarrow> dashboard \<Rightarrow> dashboard" where
  "fetchOverview_resolved data st = st\<lparr>overview := data\<rparr>"

definition fetchOverview_rejected :: "dashboard \<Rightarrow> dashboard" where
  "fetchOverview_rejected st = st\<lparr>errorLog := errorLog st + 1\<rparr>"

definition fetchActiveSessions_resolved :: "session list \<Rightarrow> dashboard \<Rightarrow> dashboard" where
  "fetchActiveSessions_resolved data st = st\<lparr>activeSessions := data\<rparr>"

definition fetchActiveSessions_rejected :: "dashboard \<Rightarrow> dashboard" where
  "fetchActiveSessions_rejected st = st\<lparr>errorLog := errorLog st + 1\<rparr>"

definition fetchUsageData_resolved ::
  "(int \<Rightarrow> string) \<Rightarrow> daily_stat list \<Rightarrow> dashboard \<Rightarrow> dashboard" where
  "fetchUsageData_resolved label daily_stats st =
     (case chartData label daily_stats of
        Inr points \<Rightarrow> st\<lparr>usageData := points, loading := False\<rparr>
      | Inl e \<Rightarrow> st\<lparr>errorLog := errorLog st + 1, loading := False\<rparr>)"

definition fetchUsageData_rejected :: "dashboard \<Rightarrow> dashboard" where
  "fetchUsageData_rejected st = st\<lparr>errorLog := errorLog st + 1, loading := False\<rparr>"

text \<open>
  The first render and the mount effect: three fetches, then \<^verbatim>\<open>setInterval\<close>.
\<close>

definition dashboard_first_render :: dashboard where
  "dashboard_first_render =
     \<lparr>overview = \<lparr>total_seats = 0, occupied_seats = 0, available_seats = 0,
                  occupancy_rate = 0, sessions_today = 0, avg_duration_minutes = 0\<rparr>,
      activeSessions = [], usageData = [], loading = True, interval = False,
      inFlight = [], issued = 0, errorLog = 0\<rparr>"

definition dashboard_mount :: dashboard where
  "dashboard_mount =
     (fetchUsageData (fetchActiveSessions (fetchOverview dashboard_first_render)))
       \<lparr>interval := True\<rparr>"

text \<open>
  The events of the mounted or unmounted view. \<open>Tick\<close> is the timer reaching the next
  multiple of 30000 ms: the interval callback runs only while the interval is registered.
  \<open>Unmount\<close> runs the effect's cleanup, \<^verbatim>\<open>clearInterval(interval)\<close>.
  \<open>UsageResolved\<close> carries the array \<^verbatim>\<open>data.daily_stats\<close> of the response.
\<close>

datatype dashboard_event =
    Tick
  | OverviewResolved overview_snapshot
  | OverviewRejected
  | ActiveSessionsResolved "session list"
  | ActiveSessionsRejected
  | UsageResolved "daily_stat list"
  | UsageRejected
  | Unmount

definition settle :: "request \<Rightarrow> dashboard \<Rightarrow> dashboard" where
  "settle r st = st\<lparr>inFlight := remove1 r (inFlight st)\<rparr>"

fun dashboard_step :: "(int \<Rightarrow> string) \<Rightarrow> dashboard_event \<Rightarrow> dashboard \<Rightarrow> dashboard" where
  "dashboard_step label Tick st =
     (if interval st then fetchActiveSessions (fetchOverview st) else st)"
| "dashboard_step label (OverviewResolved data) st =
     (if GetOverview \<in> set (inFlight st)
      then fetchOverview_resolved data (settle GetOverview st) else st)"
| "dashboard_step label OverviewRejected st =
     (if GetOverview \<in> set (inFlight st)
      then fetchOverview_rejected (settle GetOverview st) else st)"
| "dashboard_step label (ActiveSessionsResolved data) st =
     (if GetActiveSessions \<in> set (inFlight st)
      then fetchActiveSessions_resolved data (settle GetActiveSessions st) else st)"
| "dashboard_step label ActiveSessionsRejected st =
     (if GetActiveSessions \<in> set (inFlight st)
      then fetchActiveSessions_rejected (settle GetActiveSessions st) else st)"
| "dashboard_step label (UsageResolved daily_stats) st =
     (if GetUsageAnalytics 7 \<in> set (inFlight st)
      then fetchUsageData_resolved label daily_stats (settle (GetUsageAnalytics 7) st) else st)"
| "dashboard_step label UsageRejected st =
     (if GetUsageAnalytics 7 \<in> set (inFlight st)
      then fetchUsageData_rejected (settle (GetUsageAnalytics 7) st) else st)"
| "dashboard_step label Unmount st = st\<lparr>interval := False\<rparr>"

definition dashboard_run ::
  "(int \<Rightarrow> string) \<Rightarrow> dashboard_event list \<Rightarrow> dashboard \<Rightarrow> dashboard" where
  "dashboard_run label es st = foldl (\<lambda>s e. dashboard_step label e s) st es"

section \<open>The polling helper (ApiService.js, startPolling)\<close>

text \<open>
  \<open>'v\<close> is the state of the caller, which the callback updates; a callback that throws
  returns \<open>None\<close>. The record keeps whether the interval is registered, the number of
  \<^verbatim>\<open>this.api.get(endpoint)\<close> calls in flight and issued, and the number of
  \<^verbatim>\<open>console.error\<close> calls.
\<close>

record 'v polling =
  callerState :: 'v
  intervalSet :: bool
  getsInFlight :: nat
  getsIssued :: nat
  pollingErrors :: nat

text \<open>
  \<^verbatim>\<open>poll\<close> up to its \<^verbatim>\<open>await\<close>, and its continuation: \<^verbatim>\<open>callback(data)\<close> inside the
  \<^verbatim>\<open>try\<close>, \<^verbatim>\<open>console.error('Polling error:', error)\<close> in the \<^verbatim>\<open>catch\<close>, which
  also catches what the callback throws.
\<close>

definition poll :: "'v polling \<Rightarrow> 'v polling" where
  "poll st = st\<lparr>getsInFlight := getsInFlight st + 1, getsIssued := getsIssued st + 1\<rparr>"

definition poll_resolved :: "('d \<Rightarrow> 'v \<Rightarrow> 'v option) \<Rightarrow> 'd \<Rightarrow> 'v polling \<Rightarrow> 'v polling" where
  "poll_resolved callback data st =
     (case callback data (callerState st) of
        Some v \<Rightarrow> st\<lparr>callerState := v\<rparr>
      | None \<Rightarrow> st\<lparr>pollingErrors := pollingErrors st + 1\<rparr>)"

definition poll_rejected :: "'v polling \<Rightarrow> 'v polling" where
  "poll_rejected st = st\<lparr>pollingErrors := pollingErrors st + 1\<rparr>"

text \<open>
  \<^verbatim>\<open>startPolling\<close>: the initial call of \<^verbatim>\<open>poll\<close>, then \<^verbatim>\<open>setInterval(poll, interval)\<close>.
  The function it returns is \<open>cleanup\<close>, \<^verbatim>\<open>() => clearInterval(intervalId)\<close>. The endpoint
  and the length of the interval do not enter: time is the order of the events below.
\<close>

definition startPolling :: "'v \<Rightarrow> 'v polling" where
  "startPolling v =
     (poll \<lparr>callerState = v, intervalSet = False, getsInFlight = 0, getsIssued = 0,
            pollingErrors = 0\<rparr>)\<lparr>intervalSet := True\<rparr>"

definition cleanup :: "'v polling \<Rightarrow> 'v polling" where
  "cleanup st = st\<lparr>intervalSet := False\<rparr>"

datatype 'd polling_event = TimerFires | GetResolved 'd | GetRejected | Cleanup

fun polling_step ::
  "('d \<Rightarrow> 'v \<Rightarrow> 'v option) \<Rightarrow> 'd polling_event \<Rightarrow> 'v polling \<Rightarrow> 'v polling" where
  "polling_step callback TimerFires st = (if intervalSet st then poll st else st)"
| "polling_step callback (GetResolved data) st =
     (if getsInFlight st > 0
      then poll_resolved callback data (st\<lparr>getsInFlight := getsInFlight st - 1\<rparr>)
      else st)"
| "polling_step callback GetRejected st =
     (if getsInFlight st > 0
      then poll_rejected (st\<lparr>getsInFlight := getsInFlight st - 1\<rparr>)
      else st)"
| "polling_step callback Cleanup st = cleanup st"

definition polling_run ::
  "('d \<Rightarrow> 'v \<Rightarrow> 'v option) \<Rightarrow> 'd polling_event list \<Rightarrow> 'v polling \<Rightarrow> 'v polling" where
  "polling_run callback es st = foldl (\<lambda>s e. polling_step callback e s) st es"

section \<open>Example inputs\<close>

definition example_seats :: "seat list" where
  "example_seats =
     [\<lparr>seat_id = 1, seat_number = ''R1S2'', is_occupied = True, is_available = True,
       current_user_name = Some ''Asha'', check_in_time = Some 1700000000000\<rparr>,
      \<lparr>seat_id = 2, seat_number = ''X9'', is_occupied = False, is_available = True,
       current_user_name = None, check_in_time = None\<rparr>,
      \<lparr>seat_id = 3, seat_number = ''R1S2'', is_occupied = True, is_available = False,
       current_user_name = None, check_in_time = None\<rparr>]"

definition example_session :: session where
  "example_session =
     \<lparr>session_id = 1, user_name = ''Asha'', student_id = ''S001'',
      session_seat_number = ''R1S2'', session_hall_name = ''Main Hall'',
      session_check_in_time = 1700000000000\<rparr>"



definition example_format :: "int \<Rightarrow> string" where
  "example_format t = ''Day '' @ decimal (nat t)"

definition example_unnumbered :: seat where
  "example_unnumbered =
     \<lparr>seat_id = 4, seat_number = ''Aisle'', is_occupied = False, is_available = True,
      current_user_name = None, check_in_time = None\<rparr>"

definition example_halls :: "hall list" where
  "example_halls = [\<lparr>hall_id = 7, hall_name = ''Annex''\<rparr>, \<lparr>hall_id = 8, hall_name = ''Main''\<rparr>]"

definition example_callback :: "int \<Rightarrow> int \<Rightarrow> int option" where
  "example_callback data v = Some data"

definition example_overview :: overview_snapshot where
  "example_overview =
     \<lparr>total_seats = 50, occupied_seats = 20, available_seats = 30, occupancy_rate = 40,
      sessions_today = 12, avg_duration_minutes = 45\<rparr>"

definition hall_A_loaded :: seat_layout where
  "hall_A_loaded = layout_run [SeatsResolved 1 example_seats] mount"

section \<open>Loop lemmas\<close>

lemma col_loop_map:
  "col_loop ss n row col acc = acc @ map (cell_at ss row) [col..<n]"
proof (induction ss n row col acc rule: col_loop.induct)
  case (1 ss seatsPerRow row col rowSeats)
  show ?case
  proof (cases "col < seatsPerRow")
    case True
    then show ?thesis
      using "1.IH" by (subst col_loop.simps) (simp add: upt_conv_Cons)
  next
    case False
    then show ?thesis by (subst col_loop.simps) simp
  qed
qed

lemma row_loop_map:
  "row_loop ss m n row acc =
     acc @ map (\<lambda>r. map (cell_at ss r) [0..<n]) [row..<m]"
proof (induction ss m n row acc rule: row_loop.induct)
  case (1 ss rows seatsPerRow row seatGrid)
  show ?case
  proof (cases "row < rows")
    case True
    then show ?thesis
      using "1.IH" by (subst row_loop.simps) (simp add: upt_conv_Cons col_loop_map)
  next
    case False
    then show ?thesis by (subst row_loop.simps) simp
  qed
qed

lemma seat_grid_map:
  "seat_grid m n ss = map (\<lambda>r. map (cell_at ss r) [0..<n]) [0..<m]"
  by (simp add: seat_grid_def row_loop_map)

lemma seat_grid_nth:
  "row < m \<Longrightarrow> col < n \<Longrightarrow> seat_grid m n ss ! row ! col = cell_at ss row col"
  by (simp add: seat_grid_map)

lemma length_concat_seat_grid: "length (concat (seat_grid m n ss)) = m * n"
  by (simp add: seat_grid_map length_concat comp_def sum_list_triv)

lemma SeatBox_in_grid:
  assumes "SeatBox s \<in> set (concat (seat_grid m n ss))"
  shows "\<exists>row<m. \<exists>col<n. seat_number s = seatNumber row col"
proof -
  from assms obtain row col where rc: "row < m" "col < n" "cell_at ss row col = SeatBox s"
    by (auto simp: seat_grid_map)
  then have "find (\<lambda>x. seat_number x = seatNumber row col) ss = Some s"
    by (auto simp: cell_at_def split: option.splits)
  then have "seat_number s = seatNumber row col"
    by (auto simp: find_Some_iff)
  with rc show ?thesis by blast
qed

section \<open>The seat grid\<close>

text \<open>
  Claim C1. For every grid shape of \<open>R\<close> rows and \<open>C\<close> columns and every list of seats,
  the grid has \<open>R\<close> rows of \<open>C\<close> cells each, \<open>R * C\<close> cells in all. The cell at the
  0-based position \<open>(row, col)\<close> holds the first seat of the list whose number is
  \<^verbatim>\<open>R{row+1}S{col+1}\<close> when there is one, and the empty placeholder otherwise. A seat whose
  number is not \<^verbatim>\<open>R{r}S{c}\<close> for any \<open>1 \<le> r \<le> R\<close> and \<open>1 \<le> c \<le> C\<close> is in no cell.
  The component renders the shape 5 by 10.
\<close>

theorem renderSeatGrid_cells:
  "length (seat_grid R C xs) = R
   \<and> (\<forall>row<R. length (seat_grid R C xs ! row) = C)
   \<and> length (concat (seat_grid R C xs)) = R * C
   \<and> (\<forall>row<R. \<forall>col<C.
        (\<forall>i<length xs.
           seat_number (xs ! i) = seatNumber row col
           \<and> (\<forall>j<i. seat_number (xs ! j) \<noteq> seatNumber row col)
           \<longrightarrow> seat_grid R C xs ! row ! col = SeatBox (xs ! i))
        \<and> ((\<forall>s\<in>set xs. seat_number s \<noteq> seatNumber row col)
           \<longrightarrow> seat_grid R C xs ! row ! col = EmptyBox row col))
   \<and> (\<forall>s\<in>set xs.
        (\<forall>r c. 1 \<le> r \<and> r \<le> R \<and> 1 \<le> c \<and> c \<le> C
               \<longrightarrow> seat_number s \<noteq> ''R'' @ decimal r @ ''S'' @ decimal c)
        \<longrightarrow> SeatBox s \<notin> set (concat (seat_grid R C xs)))
   \<and> renderSeatGrid xs = seat_grid 5 10 xs"
proof -
  have len: "length (seat_grid R C xs) = R"
    by (simp add: seat_grid_map)
  have rows: "\<forall>row<R. length (seat_grid R C xs ! row) = C"
    by (simp add: seat_grid_map)
  have found: "seat_grid R C xs ! row ! col = SeatBox (xs ! i)"
    if "row < R" "col < C" "i < length xs" "seat_number (xs ! i) = seatNumber row col"
       "\<forall>j<i. seat_number (xs ! j) \<noteq> seatNumber row col" for row col i
  proof -
    have "find (\<lambda>s. seat_number s = seatNumber row col) xs = Some (xs ! i)"
      using that by (auto simp: find_Some_iff)
    then show ?thesis
      using that by (simp add: seat_grid_nth cell_at_def)
  qed
  have missing: "seat_grid R C xs ! row ! col = EmptyBox row col"
    if "row < R" "col < C" "\<forall>s\<in>set xs. seat_number s \<noteq> seatNumber row col" for row col
  proof -
    have "find (\<lambda>s. seat_number s = seatNumber row col) xs = None"
      using that by (auto simp: find_None_iff)
    then show ?thesis
      using that by (simp add: seat_grid_nth cell_at_def)
  qed
  have orphan: "SeatBox s \<notin> set (concat (seat_grid R C xs))"
    if "\<forall>r c. 1 \<le> r \<and> r \<le> R \<and> 1 \<le> c \<and> c \<le> C
               \<longrightarrow> seat_number s \<noteq> ''R'' @ decimal r @ ''S'' @ decimal c" for s
  proof
    assume "SeatBox s \<in> set (concat (seat_grid R C xs))"
    then obtain row col where rc: "row < R" "col < C" "seat_number s = seatNumber row col"
      using SeatBox_in_grid by blast
    then have "seat_number s = ''R'' @ decimal (row + 1) @ ''S'' @ decimal (col + 1)"
      by (simp add: seatNumber_def)
    moreover have "1 \<le> row + 1 \<and> row + 1 \<le> R \<and> 1 \<le> col + 1 \<and> col + 1 \<le> C"
      using rc by simp
    ultimately show False
      using that by blast
  qed
  show ?thesis
    using len rows found missing orphan
    by (simp add: length_concat_seat_grid renderSeatGrid_def)
qed

theorem renderSeatGrid_cells_witness:
  "length (renderSeatGrid example_seats) = 5
   \<and> length (concat (renderSeatGrid example_seats)) = 50
   \<and> renderSeatGrid example_seats ! 0 ! 1 = SeatBox (example_seats ! 0)
   \<and> renderSeatGrid example_seats ! 0 ! 0 = EmptyBox 0 0
   \<and> SeatBox (example_seats ! 1) \<notin> set (concat (renderSeatGrid example_seats))"
proof -
  note t = renderSeatGrid_cells [of 5 10 example_seats]
  note t1 = t [THEN conjunct1]
  note t3 = t [THEN conjunct2, THEN conjunct2, THEN conjunct1]
  note t4 = t [THEN conjunct2, THEN conjunct2, THEN conjunct2, THEN conjunct1, rule_format]
  note t5 = t [THEN conjunct2, THEN conjunct2, THEN conjunct2, THEN conjunct2, THEN conjunct1,
               rule_format]
  note t6 = t [THEN conjunct2, THEN conjunct2, THEN conjunct2, THEN conjunct2, THEN conjunct2]
  have n: "seatNumber 0 1 = ''R1S2''" "seatNumber 0 0 = ''R1S1''"
    by code_simp+
  have first: "seat_number (example_seats ! 0) = seatNumber 0 1
      \<and> (\<forall>j<0::nat. seat_number (example_seats ! j) \<noteq> seatNumber 0 1)"
    unfolding n by (simp add: example_seats_def)
  have none: "\<forall>s\<in>set example_seats. seat_number s \<noteq> seatNumber 0 0"
    unfolding n by (simp add: example_seats_def)
  have orphan: "\<forall>r c. 1 \<le> r \<and> r \<le> 5 \<and> 1 \<le> c \<and> c \<le> 10
            \<longrightarrow> seat_number (example_seats ! 1) \<noteq> ''R'' @ decimal r @ ''S'' @ decimal c"
    by (simp add: example_seats_def)
  have mem: "example_seats ! 1 \<in> set example_seats"
    by (simp add: example_seats_def)
  have len: "(0::nat) < length example_seats"
    by (simp add: example_seats_def)
  have a: "seat_grid 5 10 example_seats ! 0 ! 1 = SeatBox (example_seats ! 0)"
    using t4 [of 0 1, THEN conjunct1, rule_format, of 0] first len by simp
  have b: "seat_grid 5 10 example_seats ! 0 ! 0 = EmptyBox 0 0"
    using t4 [of 0 0, THEN conjunct2, rule_format] none by simp
  have c: "SeatBox (example_seats ! 1) \<notin> set (concat (seat_grid 5 10 example_seats))"
    using t5 [OF mem] orphan by blast
  show ?thesis
    unfolding t6 using t1 t3 a b c by simp
qed

section \<open>Derived counts\<close>

text \<open>
  Claim C7. For every seat snapshot, the occupied count is the number of seats whose
  occupied flag is true and the available count is the number of seats whose available
  flag is true and whose occupied flag is false. Both are functions of the snapshot alone:
  applying the same snapshot a second time gives the same counts and the same grid.
\<close>

theorem seat_counts:
  "occupiedSeats xs = card {i. i < length xs \<and> is_occupied (xs ! i)}
   \<and> availableSeats xs = card {i. i < length xs \<and> is_available (xs ! i) \<and> \<not> is_occupied (xs ! i)}
   \<and> occupiedSeats (seats (fetchSeats_resolved xs (fetchSeats_resolved xs st)))
       = occupiedSeats (seats (fetchSeats_resolved xs st))
   \<and> availableSeats (seats (fetchSeats_resolved xs (fetchSeats_resolved xs st)))
       = availableSeats (seats (fetchSeats_resolved xs st))
   \<and> renderSeatGrid (seats (fetchSeats_resolved xs (fetchSeats_resolved xs st)))
       = renderSeatGrid (seats (fetchSeats_resolved xs st))
   \<and> occupiedSeats (seats (fetchSeats_resolved xs st)) = occupiedSeats xs
   \<and> availableSeats (seats (fetchSeats_resolved xs st)) = availableSeats xs"
  by (simp add: occupiedSeats_def availableSeats_def fetchSeats_resolved_def
                length_filter_conv_card)

theorem seat_counts_witness:
  "card {i. i < length example_seats \<and> is_occupied (example_seats ! i)} = 2
   \<and> card {i. i < length example_seats
              \<and> is_available (example_seats ! i) \<and> \<not> is_occupied (example_seats ! i)} = 1"
proof -
  have "occupiedSeats example_seats = 2" "availableSeats example_seats = 1"
    by (simp_all add: occupiedSeats_def availableSeats_def example_seats_def)
  then show ?thesis
    using seat_counts [of example_seats first_render] by simp
qed

section \<open>Session duration\<close>

text \<open>
  Claim C5. For every session and every time \<open>now\<close>, both in milliseconds since the
  epoch, the displayed duration is the floor of \<open>(now - check_in_time) / 60000\<close>. It is
  therefore non-decreasing in \<open>now\<close>, it is 0 when \<open>now\<close> is the check-in time, and it is
  negative, not clamped, when the check-in time lies in the future.
\<close>

theorem duration_floor:
  "duration now s = (now - session_check_in_time s) div 60000
   \<and> (now \<le> now' \<longrightarrow> duration now s \<le> duration now' s)
   \<and> (now = session_check_in_time s \<longrightarrow> duration now s = 0)
   \<and> (now < session_check_in_time s \<longrightarrow> duration now s < 0)"
proof -
  have eq: "duration t s = (t - session_check_in_time s) div 60000" for t
  proof -
    have "real_of_int (t - session_check_in_time s) / (1000 * 60)
            = real_of_int (t - session_check_in_time s) / real_of_int 60000"
      by simp
    then show ?thesis
      unfolding duration_def by (simp only: floor_divide_of_int_eq)
  qed
  have mono: "duration now s \<le> duration now' s" if "now \<le> now'"
    unfolding eq using that by (intro zdiv_mono1) simp_all
  have neg: "duration now s < 0" if "now < session_check_in_time s"
    unfolding eq using that by (simp add: div_neg_pos_less0)
  show ?thesis
    using eq mono neg by simp
qed

theorem duration_floor_witness:
  "duration 1700000059999 example_session = 0
   \<and> duration 1700000060000 example_session = 1
   \<and> duration 1700000000000 example_session = 0
   \<and> duration 1699999999999 example_session = - 1
   \<and> duration 1700000059999 example_session \<le> duration 1700000060000 example_session"
proof -
  have c: "session_check_in_time example_session = 1700000000000"
    by (simp add: example_session_def)
  show ?thesis
    using duration_floor [of 1700000059999 example_session 1700000060000]
          duration_floor [of 1700000060000 example_session 1700000060000]
          duration_floor [of 1700000000000 example_session 1700000000000]
          duration_floor [of 1699999999999 example_session 1700000000000]
    by (simp add: c)
qed

section \<open>Usage chart data\<close>

lemma format_date_RangeError: "format_date label d = Inl e \<longleftrightarrow> d = None"
  by (cases d; cases e) (simp_all add: format_date_def)









section \<open>The selected-seat panel\<close>

lemma match_digits_None: "match_digits s = None \<longleftrightarrow> (\<forall>c\<in>set s. \<not> isDigit c)"
proof (cases "dropWhile (\<lambda>c. \<not> isDigit c) s = []")
  case True
  have "match_digits s = None"
    unfolding match_digits_def True by simp
  moreover have "\<forall>c\<in>set s. \<not> isDigit c"
    using True by (simp add: dropWhile_eq_Nil_conv)
  ultimately show ?thesis by blast
next
  case False
  then obtain d ds where e: "dropWhile (\<lambda>c. \<not> isDigit c) s = d # ds"
    by (auto simp only: neq_Nil_conv)
  have "match_digits s \<noteq> None"
    unfolding match_digits_def e by simp
  moreover have "\<not> (\<forall>c\<in>set s. \<not> isDigit c)"
    using False by (simp add: dropWhile_eq_Nil_conv)
  ultimately show ?thesis by blast
qed

lemma position_TypeError: "position s = Inl TypeError \<longleftrightarrow> (\<forall>c\<in>set s. \<not> isDigit c)"
  using match_digits_None [of s] by (auto simp: position_def split: option.splits)

text \<open>
  Claim C10. The position of the selected seat is defined only when its seat number
  contains a decimal digit: for a seat number without any digit the match is \<^verbatim>\<open>null\<close>,
  indexing it throws a \<^verbatim>\<open>TypeError\<close>, and rendering the selected-seat panel fails instead
  of showing a position. With a digit in the seat number the panel is rendered.
\<close>

theorem position_needs_digit:
  "(position (seat_number s) = Inl TypeError \<longleftrightarrow> (\<forall>c\<in>set (seat_number s). \<not> isDigit c))
   \<and> ((\<forall>c\<in>set (seat_number s). \<not> isDigit c) \<longrightarrow> selectedSeatInfo (Some s) = Inl TypeError)
   \<and> ((\<exists>c\<in>set (seat_number s). isDigit c)
        \<longrightarrow> (\<exists>r c. selectedSeatInfo (Some s) = Inr (Some (seat_number s, r, c))))"
proof (intro conjI impI)
  show "position (seat_number s) = Inl TypeError \<longleftrightarrow> (\<forall>c\<in>set (seat_number s). \<not> isDigit c)"
    by (rule position_TypeError)
next
  assume "\<forall>c\<in>set (seat_number s). \<not> isDigit c"
  then have "position (seat_number s) = Inl TypeError"
    by (simp add: position_TypeError)
  then show "selectedSeatInfo (Some s) = Inl TypeError"
    by (simp add: selectedSeatInfo_def)
next
  assume "\<exists>c\<in>set (seat_number s). isDigit c"
  then have "position (seat_number s) \<noteq> Inl TypeError"
    by (simp add: position_TypeError)
  then obtain r c where "position (seat_number s) = Inr (r, c)"
    by (cases "position (seat_number s)") (auto intro: js_error.exhaust)
  then show "\<exists>r c. selectedSeatInfo (Some s) = Inr (Some (seat_number s, r, c))"
    by (simp add: selectedSeatInfo_def)
qed

theorem position_needs_digit_witness:
  "position (seat_number example_unnumbered) = Inl TypeError
   \<and> selectedSeatInfo (Some example_unnumbered) = Inl TypeError
   \<and> (\<exists>r c. selectedSeatInfo (Some (example_seats ! 0))
               = Inr (Some (seat_number (example_seats ! 0), r, c)))"
proof -
  have no: "\<forall>c\<in>set (seat_number example_unnumbered). \<not> isDigit c"
    by (simp add: example_unnumbered_def isDigit_def)
  have yes: "\<exists>c\<in>set (seat_number (example_seats ! 0)). isDigit c"
    by (simp add: example_seats_def isDigit_def)
  show ?thesis
    using position_needs_digit [of example_unnumbered, THEN conjunct1]
          position_needs_digit [of example_unnumbered, THEN conjunct2, THEN conjunct1]
          position_needs_digit [of "example_seats ! 0", THEN conjunct2, THEN conjunct2]
          no yes
    by (intro conjI) simp_all
qed

text \<open>
  Claim C3 asks that the displayed row and column invert the grid's numbering, so that
  \<^verbatim>\<open>R3S7\<close> shows row 3, column 7 and \<^verbatim>\<open>R1S10\<close> shows column 10. The panel reads the
  first run of digits only and treats it as a running seat index: for the seat the grid
  puts at row 3, column 7 it shows row 1, column 3, and for the seat at row 1, column 10 it
  shows row 1, column 1.
\<close>

theorem position_of_grid_seat:
  "seatNumber 2 6 = ''R3S7'' \<and> position ''R3S7'' = Inr (1, 3)
   \<and> seatNumber 0 9 = ''R1S10'' \<and> position ''R1S10'' = Inr (1, 1)"
proof -
  have a: "seatNumber 2 6 = ''R3S7''" by code_simp
  have b: "position ''R3S7'' = Inr (1, 3)" by code_simp
  have c: "seatNumber 0 9 = ''R1S10''" by code_simp
  have d: "position ''R1S10'' = Inr (1, 1)" by code_simp
  show ?thesis
    using a b c d by (intro conjI)
qed

section \<open>Polling: deactivation and failed fetches\<close>

lemma polling_step_stopped:
  "\<not> intervalSet st \<Longrightarrow>
     \<not> intervalSet (polling_step cb e st) \<and> getsIssued (polling_step cb e st) = getsIssued st"
  by (cases e) (auto simp: poll_resolved_def poll_rejected_def cleanup_def split: option.splits)

lemma polling_run_stopped:
  "\<not> intervalSet st \<Longrightarrow>
     \<not> intervalSet (polling_run cb es st) \<and> getsIssued (polling_run cb es st) = getsIssued st"
proof (induction es arbitrary: st)
  case Nil
  then show ?case by (simp add: polling_run_def)
next
  case (Cons e es)
  from Cons.prems have s: "\<not> intervalSet (polling_step cb e st)"
    and g: "getsIssued (polling_step cb e st) = getsIssued st"
    using polling_step_stopped by blast+
  have "polling_run cb (e # es) st = polling_run cb es (polling_step cb e st)"
    by (simp add: polling_run_def)
  with Cons.IH [OF s] g show ?case by simp
qed

lemma dashboard_step_stopped:
  "\<not> interval d \<Longrightarrow>
     \<not> interval (dashboard_step fmt e d) \<and> issued (dashboard_step fmt e d) = issued d"
  by (cases e)
     (simp_all add: settle_def fetchOverview_resolved_def fetchOverview_rejected_def
        fetchActiveSessions_resolved_def fetchActiveSessions_rejected_def
        fetchUsageData_resolved_def fetchUsageData_rejected_def split: sum.splits)

lemma dashboard_run_stopped:
  "\<not> interval d \<Longrightarrow>
     \<not> interval (dashboard_run fmt es d) \<and> issued (dashboard_run fmt es d) = issued d"
proof (induction es arbitrary: d)
  case Nil
  then show ?case by (simp add: dashboard_run_def)
next
  case (Cons e es)
  from Cons.prems have s: "\<not> interval (dashboard_step fmt e d)"
    and g: "issued (dashboard_step fmt e d) = issued d"
    using dashboard_step_stopped by blast+
  have "dashboard_run fmt (e # es) d = dashboard_run fmt es (dashboard_step fmt e d)"
    by (simp add: dashboard_run_def)
  with Cons.IH [OF s] g show ?case by simp
qed

text \<open>
  Claim C2, as stated, asks that the result of a fetch in flight at deactivation be
  discarded when it resolves afterwards. \<^verbatim>\<open>startPolling\<close> does not discard it: after the
  cleanup function has run, with the initial request still in flight, the response is
  passed to the callback, which here replaces the caller's state 0 by the data 5.
\<close>

theorem resolved_after_cleanup_is_applied:
  "\<not> intervalSet (polling_run example_callback [Cleanup] (startPolling 0))
   \<and> getsInFlight (polling_run example_callback [Cleanup] (startPolling 0)) = 1
   \<and> callerState (polling_run example_callback [Cleanup] (startPolling 0)) = 0
   \<and> callerState (polling_run example_callback [Cleanup, GetResolved 5] (startPolling 0)) = 5"
proof -
  have a: "\<not> intervalSet (polling_run example_callback [Cleanup] (startPolling 0))"
    by (simp add: polling_run_def cleanup_def)
  have b: "getsInFlight (polling_run example_callback [Cleanup] (startPolling 0)) = 1"
    by (simp add: polling_run_def cleanup_def startPolling_def poll_def)
  have c: "callerState (polling_run example_callback [Cleanup] (startPolling 0)) = 0"
    by (simp add: polling_run_def cleanup_def startPolling_def poll_def)
  have d: "callerState (polling_run example_callback [Cleanup, GetResolved 5] (startPolling 0)) = 5"
    by (simp add: polling_run_def cleanup_def startPolling_def poll_def poll_resolved_def
          example_callback_def)
  show ?thesis
    using a b c d by (intro conjI)
qed

text \<open>
  Claim C2, amended. After deactivation (the cleanup function of \<^verbatim>\<open>startPolling\<close>, the
  effect cleanup of the dashboard) no further fetch is issued, whatever happens next.
  The result of a fetch that was in flight at deactivation and resolves afterwards is not
  discarded: \<^verbatim>\<open>startPolling\<close> calls the callback with it, and the dashboard's continuations
  call \<^verbatim>\<open>setOverview\<close> and \<^verbatim>\<open>setActiveSessions\<close> with it, as before deactivation.
\<close>

theorem no_fetch_after_deactivation:
  "getsIssued (polling_run callback es (polling_step callback Cleanup st)) = getsIssued st
   \<and> issued (dashboard_run format ds (dashboard_step format Unmount d)) = issued d
   \<and> (0 < getsInFlight st \<and> callback x (callerState st) = Some v \<longrightarrow>
        callerState (polling_step callback (GetResolved x) (polling_step callback Cleanup st)) = v)
   \<and> (GetOverview \<in> set (inFlight d) \<longrightarrow>
        overview (dashboard_step format (OverviewResolved ov) (dashboard_step format Unmount d)) = ov)
   \<and> (GetActiveSessions \<in> set (inFlight d) \<longrightarrow>
        activeSessions (dashboard_step format (ActiveSessionsResolved ss)
                          (dashboard_step format Unmount d)) = ss)"
proof (intro conjI impI)
  have "\<not> intervalSet (polling_step callback Cleanup st)"
    and "getsIssued (polling_step callback Cleanup st) = getsIssued st"
    by (simp_all add: cleanup_def)
  then show "getsIssued (polling_run callback es (polling_step callback Cleanup st)) = getsIssued st"
    using polling_run_stopped by metis
next
  have "\<not> interval (dashboard_step format Unmount d)"
    and "issued (dashboard_step format Unmount d) = issued d"
    by simp_all
  then show "issued (dashboard_run format ds (dashboard_step format Unmount d)) = issued d"
    using dashboard_run_stopped by metis
next
  assume "0 < getsInFlight st \<and> callback x (callerState st) = Some v"
  then show "callerState (polling_step callback (GetResolved x)
                (polling_step callback Cleanup st)) = v"
    by (simp add: cleanup_def poll_resolved_def)
next
  assume "GetOverview \<in> set (inFlight d)"
  then show "overview (dashboard_step format (OverviewResolved ov)
                (dashboard_step format Unmount d)) = ov"
    by (simp add: settle_def fetchOverview_resolved_def)
next
  assume "GetActiveSessions \<in> set (inFlight d)"
  then show "activeSessions (dashboard_step format (ActiveSessionsResolved ss)
                (dashboard_step format Unmount d)) = ss"
    by (simp add: settle_def fetchActiveSessions_resolved_def)
qed


theorem no_fetch_after_deactivation_witness:
  "getsIssued (polling_run example_callback [TimerFires, GetResolved 5, TimerFires]
                 (polling_step example_callback Cleanup (startPolling 0))) = 1
   \<and> issued (dashboard_run example_format [Tick, OverviewRejected, Tick]
                (dashboard_step example_format Unmount dashboard_mount)) = 3
   \<and> callerState (polling_step example_callback (GetResolved 5)
                     (polling_step example_callback Cleanup (startPolling 0))) = 5
   \<and> overview (dashboard_step example_format (OverviewResolved example_overview)
                  (dashboard_step example_format Unmount dashboard_mount)) = example_overview
   \<and> activeSessions (dashboard_step example_format (ActiveSessionsResolved [example_session])
                        (dashboard_step example_format Unmount dashboard_mount)) = [example_session]"
proof -
  note t = no_fetch_after_deactivation
             [of example_callback "[TimerFires, GetResolved 5, TimerFires]" "startPolling 0"
                 example_format "[Tick, OverviewRejected, Tick]" dashboard_mount
                 5 5 example_overview "[example_session]"]
  have p: "getsIssued (startPolling (0::int)) = 1" "0 < getsInFlight (startPolling (0::int))"
     "example_callback 5 (callerState (startPolling 0)) = Some 5"
    by (simp_all add: startPolling_def poll_def example_callback_def)
  have d: "issued dashboard_mount = 3" "GetOverview \<in> set (inFlight dashboard_mount)"
     "GetActiveSessions \<in> set (inFlight dashboard_mount)"
    by (simp_all add: dashboard_mount_def dashboard_first_render_def fetchOverview_def
          fetchActiveSessions_def fetchUsageData_def send_def)
  show ?thesis
    using t p d by simp
qed

text \<open>
  Claim C8. A fetch that fails (the request promise rejects: network error, timeout or a
  status outside 2xx) leaves the displayed state as it was, is logged, and leaves the
  interval registered, so that the next tick issues its fetches: two for the dashboard, one
  for \<^verbatim>\<open>startPolling\<close>.
\<close>

theorem failed_fetch_keeps_state:
  "overview (dashboard_step format OverviewRejected d) = overview d
   \<and> activeSessions (dashboard_step format OverviewRejected d) = activeSessions d
   \<and> usageData (dashboard_step format OverviewRejected d) = usageData d
   \<and> loading (dashboard_step format OverviewRejected d) = loading d
   \<and> interval (dashboard_step format OverviewRejected d) = interval d
   \<and> overview (dashboard_step format ActiveSessionsRejected d) = overview d
   \<and> activeSessions (dashboard_step format ActiveSessionsRejected d) = activeSessions d
   \<and> usageData (dashboard_step format ActiveSessionsRejected d) = usageData d
   \<and> loading (dashboard_step format ActiveSessionsRejected d) = loading d
   \<and> interval (dashboard_step format ActiveSessionsRejected d) = interval d
   \<and> (GetOverview \<in> set (inFlight d) \<longrightarrow>
        errorLog (dashboard_step format OverviewRejected d) = errorLog d + 1)
   \<and> (GetActiveSessions \<in> set (inFlight d) \<longrightarrow>
        errorLog (dashboard_step format ActiveSessionsRejected d) = errorLog d + 1)
   \<and> (interval d \<longrightarrow>
        issued (dashboard_step format Tick (dashboard_step format OverviewRejected d))
          = issued (dashboard_step format OverviewRejected d) + 2
        \<and> issued (dashboard_step format Tick (dashboard_step format ActiveSessionsRejected d))
          = issued (dashboard_step format ActiveSessionsRejected d) + 2)
   \<and> callerState (polling_step callback GetRejected st) = callerState (st :: 'v polling)
   \<and> intervalSet (polling_step callback GetRejected st) = intervalSet st
   \<and> (0 < getsInFlight st \<longrightarrow>
        pollingErrors (polling_step callback GetRejected st) = pollingErrors st + 1)
   \<and> (intervalSet st \<longrightarrow>
        getsIssued (polling_step callback TimerFires (polling_step callback GetRejected st))
          = getsIssued (polling_step callback GetRejected st) + 1)"
proof -
  have o: "overview (dashboard_step format OverviewRejected d) = overview d
      \<and> activeSessions (dashboard_step format OverviewRejected d) = activeSessions d
      \<and> usageData (dashboard_step format OverviewRejected d) = usageData d
      \<and> loading (dashboard_step format OverviewRejected d) = loading d
      \<and> interval (dashboard_step format OverviewRejected d) = interval d"
    by (simp add: settle_def fetchOverview_rejected_def)
  have a: "overview (dashboard_step format ActiveSessionsRejected d) = overview d
      \<and> activeSessions (dashboard_step format ActiveSessionsRejected d) = activeSessions d
      \<and> usageData (dashboard_step format ActiveSessionsRejected d) = usageData d
      \<and> loading (dashboard_step format ActiveSessionsRejected d) = loading d
      \<and> interval (dashboard_step format ActiveSessionsRejected d) = interval d"
    by (simp add: settle_def fetchActiveSessions_rejected_def)
  have l: "(GetOverview \<in> set (inFlight d) \<longrightarrow>
        errorLog (dashboard_step format OverviewRejected d) = errorLog d + 1)
      \<and> (GetActiveSessions \<in> set (inFlight d) \<longrightarrow>
        errorLog (dashboard_step format ActiveSessionsRejected d) = errorLog d + 1)"
    by (simp add: settle_def fetchOverview_rejected_def fetchActiveSessions_rejected_def)
  have tick: "issued (dashboard_step format Tick s) = issued s + 2" if "interval s" for s
    using that by (simp add: fetchOverview_def fetchActiveSessions_def send_def)
  have t: "interval d \<longrightarrow>
        issued (dashboard_step format Tick (dashboard_step format OverviewRejected d))
          = issued (dashboard_step format OverviewRejected d) + 2
        \<and> issued (dashboard_step format Tick (dashboard_step format ActiveSessionsRejected d))
          = issued (dashboard_step format ActiveSessionsRejected d) + 2"
    using o a tick by blast
  have p: "callerState (polling_step callback GetRejected st) = callerState st
      \<and> intervalSet (polling_step callback GetRejected st) = intervalSet st
      \<and> (0 < getsInFlight st \<longrightarrow>
        pollingErrors (polling_step callback GetRejected st) = pollingErrors st + 1)"
    by (simp add: poll_rejected_def)
  have fires: "getsIssued (polling_step callback TimerFires s) = getsIssued s + 1"
    if "intervalSet s" for s :: "'v polling"
    using that by (simp add: poll_def)
  have q: "intervalSet st \<longrightarrow>
        getsIssued (polling_step callback TimerFires (polling_step callback GetRejected st))
          = getsIssued (polling_step callback GetRejected st) + 1"
    using p fires by blast
  show ?thesis
    using o a l t p q by (intro conjI) blast+
qed


theorem failed_fetch_keeps_state_witness:
  "errorLog (dashboard_step example_format OverviewRejected dashboard_mount) = 1
   \<and> errorLog (dashboard_step example_format ActiveSessionsRejected dashboard_mount) = 1
   \<and> overview (dashboard_step example_format OverviewRejected dashboard_mount)
        = overview dashboard_mount
   \<and> issued (dashboard_step example_format Tick
               (dashboard_step example_format OverviewRejected dashboard_mount)) = 5
   \<and> issued (dashboard_step example_format Tick
               (dashboard_step example_format ActiveSessionsRejected dashboard_mount)) = 5
   \<and> pollingErrors (polling_step example_callback GetRejected (startPolling 0)) = 1
   \<and> callerState (polling_step example_callback GetRejected (startPolling 0)) = 0
   \<and> getsIssued (polling_step example_callback TimerFires
                   (polling_step example_callback GetRejected (startPolling 0))) = 2"
proof -
  note t = failed_fetch_keeps_state [of example_format dashboard_mount example_callback
                                        "startPolling 0"]
  have d: "interval dashboard_mount" "issued dashboard_mount = 3" "errorLog dashboard_mount = 0"
     "GetOverview \<in> set (inFlight dashboard_mount)"
     "GetActiveSessions \<in> set (inFlight dashboard_mount)"
    by (simp_all add: dashboard_mount_def dashboard_first_render_def fetchOverview_def
          fetchActiveSessions_def fetchUsageData_def send_def)
  have i: "issued (dashboard_step example_format OverviewRejected dashboard_mount) = 3"
     "issued (dashboard_step example_format ActiveSessionsRejected dashboard_mount) = 3"
    using d by (simp_all add: settle_def fetchOverview_rejected_def fetchActiveSessions_rejected_def)
  have p: "intervalSet (startPolling (0::int))" "0 < getsInFlight (startPolling (0::int))"
     "pollingErrors (startPolling (0::int)) = 0" "callerState (startPolling (0::int)) = 0"
     "getsIssued (polling_step example_callback GetRejected (startPolling 0)) = 1"
    by (simp_all add: startPolling_def poll_def poll_rejected_def)
  show ?thesis
    using t d i p by (simp del: dashboard_step.simps polling_step.simps)
qed

section \<open>Hall selection\<close>

text \<open>
  Claim C9 asks that, while no hall has been selected, the selected hall id default to the
  first hall returned by the halls fetch. The state starts at the fixed id 1, and the test
  \<^verbatim>\<open>!selectedHallId\<close> of \<^verbatim>\<open>fetchHalls\<close> reads that 1: whatever list of halls is returned,
  \<^verbatim>\<open>setSelectedHallId(data[0].id)\<close> is not reached and the selected id stays 1, here with a
  first hall of id 7.
\<close>

theorem fetchHalls_never_selects:
  "selectedHallId mount = 1
   \<and> selectedHallId (layout_step (HallsResolved data) st) = selectedHallId st
   \<and> selectedHallId (layout_step (HallsResolved data) mount) = 1
   \<and> halls (layout_step (HallsResolved example_halls) mount) = example_halls
   \<and> hall_id (example_halls ! 0) = 7
   \<and> selectedHallId (layout_step (HallsResolved example_halls) mount) = 1
   \<and> seatsInFlight (layout_step (HallsResolved example_halls) mount) = [1]"
proof -
  have m: "mount = \<lparr>halls = [], selectedHallId = 1, seats = [], seatsLoading = True,
                    selectedSeat = None, hallsInFlight = 1, seatsInFlight = [1],
                    consoleErrors = 0\<rparr>"
    by (simp add: mount_def first_render_def fetchHalls_def fetchSeats_def truthy_def)
  have c: "selectedHallId first_render = 1"
    by (simp add: first_render_def)
  have s: "layout_step (HallsResolved hs) mount = mount\<lparr>hallsInFlight := 0, halls := hs\<rparr>" for hs
    by (simp add: m c fetchHalls_resolved_def truthy_def)
  have h: "hall_id (example_halls ! 0) = 7"
    by (simp add: example_halls_def)
  have g: "selectedHallId (layout_step (HallsResolved data) st) = selectedHallId st"
    by (simp add: c fetchHalls_resolved_def truthy_def)
  show ?thesis
    unfolding s using h g by (simp add: m del: layout_step.simps)
qed

text \<open>
  Claim C4, as stated, asks that selecting hall B clear hall A's snapshot before hall B's
  response arrives. With hall 1 loaded, after hall 2 is selected and while its request is
  in flight, the seats are still those of hall 1 and the grid still shows them.
\<close>

theorem select_hall_keeps_old_snapshot:
  "seats hall_A_loaded = example_seats
   \<and> selectedHallId hall_A_loaded = 1
   \<and> selectedHallId (layout_step (SelectHall 2) hall_A_loaded) = 2
   \<and> seatsInFlight (layout_step (SelectHall 2) hall_A_loaded) = [2]
   \<and> seats (layout_step (SelectHall 2) hall_A_loaded) = example_seats
   \<and> renderSeatGrid (seats (layout_step (SelectHall 2) hall_A_loaded)) ! 0 ! 1
        = SeatBox (example_seats ! 0)"
proof -
  have m: "mount = \<lparr>halls = [], selectedHallId = 1, seats = [], seatsLoading = True,
                    selectedSeat = None, hallsInFlight = 1, seatsInFlight = [1],
                    consoleErrors = 0\<rparr>"
    by (simp add: mount_def first_render_def fetchHalls_def fetchSeats_def truthy_def)
  have a: "hall_A_loaded = \<lparr>halls = [], selectedHallId = 1, seats = example_seats,
                    seatsLoading = False, selectedSeat = None, hallsInFlight = 1,
                    seatsInFlight = [], consoleErrors = 0\<rparr>"
    by (simp add: hall_A_loaded_def layout_run_def m fetchSeats_resolved_def)
  have b: "layout_step (SelectHall 2) hall_A_loaded
             = \<lparr>halls = [], selectedHallId = 2, seats = example_seats,
                seatsLoading = True, selectedSeat = None, hallsInFlight = 1,
                seatsInFlight = [2], consoleErrors = 0\<rparr>"
    by (simp add: a setSelectedHallId_def truthy_def fetchSeats_def)
  have g: "renderSeatGrid example_seats ! 0 ! 1 = SeatBox (example_seats ! 0)"
  proof -
    have "find (\<lambda>s. seat_number s = seatNumber 0 1) example_seats = Some (example_seats ! 0)"
      by code_simp
    then show ?thesis
      by (simp add: renderSeatGrid_def seat_grid_nth cell_at_def)
  qed
  show ?thesis
    unfolding b using g by (simp add: a)
qed

lemma layout_step_keeps_seats:
  "\<not> seats_response e \<Longrightarrow> seats (layout_step e st) = seats st"
  by (cases e)
     (simp_all add: fetchHalls_resolved_def fetchHalls_rejected_def fetchSeats_rejected_def
        setSelectedHallId_def fetchSeats_def)

lemma layout_run_keeps_seats:
  "\<forall>e\<in>set es. \<not> seats_response e \<Longrightarrow> seats (layout_run es st) = seats st"
proof (induction es arbitrary: st)
  case Nil
  then show ?case by (simp add: layout_run_def)
next
  case (Cons e es)
  have "layout_run (e # es) st = layout_run es (layout_step e st)"
    by (simp add: layout_run_def)
  moreover have "seats (layout_run es (layout_step e st)) = seats (layout_step e st)"
    using Cons by simp
  moreover have "seats (layout_step e st) = seats st"
    using Cons.prems by (simp add: layout_step_keeps_seats)
  ultimately show ?case by simp
qed

lemma layout_step_keeps_in_flight:
  assumes "v \<in> set (seatsInFlight st)" "\<not> seats_response e" "e \<noteq> SeatsRejected v"
  shows "v \<in> set (seatsInFlight (layout_step e st))"
proof (cases e)
  case (SeatsRejected h)
  then have "h \<noteq> v"
    using assms(3) by simp
  then have "v \<in> set (remove1 h (seatsInFlight st))"
    using assms(1) by simp
  then show ?thesis
    using assms(1) by (simp add: SeatsRejected fetchSeats_rejected_def)
qed (use assms in \<open>simp_all add: fetchHalls_resolved_def fetchHalls_rejected_def
        setSelectedHallId_def fetchSeats_def\<close>)

lemma layout_run_keeps_in_flight:
  "v \<in> set (seatsInFlight st) \<Longrightarrow>
   \<forall>e\<in>set es. \<not> seats_response e \<and> e \<noteq> SeatsRejected v \<Longrightarrow>
     v \<in> set (seatsInFlight (layout_run es st))"
proof (induction es arbitrary: st)
  case Nil
  then show ?case by (simp add: layout_run_def)
next
  case (Cons e es)
  have "layout_run (e # es) st = layout_run es (layout_step e st)"
    by (simp add: layout_run_def)
  moreover have "v \<in> set (seatsInFlight (layout_step e st))"
    using Cons.prems by (simp add: layout_step_keeps_in_flight)
  ultimately show ?case
    using Cons by simp
qed

text \<open>
  Claim C4, amended. Selecting a hall whose id is non-zero and differs from the selected
  one immediately issues a fetch of that hall's seats. The snapshot of the previous hall is
  not cleared: it stays as it is through every later event (a refresh, a failed seats
  fetch, a halls response, another selection, a click on a seat) until a seats response is
  applied. When the new hall's response is applied, the snapshot is exactly that response.
\<close>

theorem select_hall_refetches:
  "v \<noteq> selectedHallId st \<and> truthy v \<longrightarrow>
     selectedHallId (layout_step (SelectHall v) st) = v
     \<and> seatsInFlight (layout_step (SelectHall v) st) = seatsInFlight st @ [v]
     \<and> seats (layout_step (SelectHall v) st) = seats st
     \<and> ((\<forall>e\<in>set es. \<not> seats_response e) \<longrightarrow>
          seats (layout_run es (layout_step (SelectHall v) st)) = seats st)
     \<and> seats (layout_step (SeatsResolved v data) (layout_step (SelectHall v) st)) = data
     \<and> ((\<forall>e\<in>set es. \<not> seats_response e \<and> e \<noteq> SeatsRejected v) \<longrightarrow>
          seats (layout_step (SeatsResolved v data)
                   (layout_run es (layout_step (SelectHall v) st))) = data)"
proof (intro impI)
  assume h: "v \<noteq> selectedHallId st \<and> truthy v"
  have a: "selectedHallId (layout_step (SelectHall v) st) = v"
      "seatsInFlight (layout_step (SelectHall v) st) = seatsInFlight st @ [v]"
      "seats (layout_step (SelectHall v) st) = seats st"
    using h by (simp_all add: setSelectedHallId_def fetchSeats_def)
  have b: "seats (layout_run es (layout_step (SelectHall v) st)) = seats st"
    if "\<forall>e\<in>set es. \<not> seats_response e"
    using that a(3) by (simp add: layout_run_keeps_seats del: layout_step.simps)
  have r: "seats (layout_step (SeatsResolved v data) s) = data"
    if "v \<in> set (seatsInFlight s)" for s
    using that by (simp add: fetchSeats_resolved_def)
  have f: "v \<in> set (seatsInFlight (layout_step (SelectHall v) st))"
    unfolding a(2) by simp
  have c: "seats (layout_step (SeatsResolved v data) (layout_step (SelectHall v) st)) = data"
    using f by (rule r)
  have d: "seats (layout_step (SeatsResolved v data)
                   (layout_run es (layout_step (SelectHall v) st))) = data"
    if "\<forall>e\<in>set es. \<not> seats_response e \<and> e \<noteq> SeatsRejected v"
    using layout_run_keeps_in_flight [OF f that] by (rule r)
  show "selectedHallId (layout_step (SelectHall v) st) = v
     \<and> seatsInFlight (layout_step (SelectHall v) st) = seatsInFlight st @ [v]
     \<and> seats (layout_step (SelectHall v) st) = seats st
     \<and> ((\<forall>e\<in>set es. \<not> seats_response e) \<longrightarrow>
          seats (layout_run es (layout_step (SelectHall v) st)) = seats st)
     \<and> seats (layout_step (SeatsResolved v data) (layout_step (SelectHall v) st)) = data
     \<and> ((\<forall>e\<in>set es. \<not> seats_response e \<and> e \<noteq> SeatsRejected v) \<longrightarrow>
          seats (layout_step (SeatsResolved v data)
                   (layout_run es (layout_step (SelectHall v) st))) = data)"
    using a b c d by (intro conjI impI)
qed

theorem select_hall_refetches_witness:
  "selectedHallId (layout_step (SelectHall 2) hall_A_loaded) = 2
   \<and> seatsInFlight (layout_step (SelectHall 2) hall_A_loaded) = [2]
   \<and> seats (layout_step (SelectHall 2) hall_A_loaded) = example_seats
   \<and> seats (layout_run [Refresh, SeatsRejected 2, HallsResolved example_halls,
                         SeatClick example_unnumbered, SelectHall 1, HallsRejected]
              (layout_step (SelectHall 2) hall_A_loaded)) = example_seats
   \<and> seats (layout_step (SeatsResolved 2 [example_unnumbered])
              (layout_step (SelectHall 2) hall_A_loaded)) = [example_unnumbered]
   \<and> seats (layout_step (SeatsResolved 2 [example_unnumbered])
              (layout_run [Refresh, SeatsRejected 1, HallsResolved example_halls,
                           SeatClick example_unnumbered]
                 (layout_step (SelectHall 2) hall_A_loaded))) = [example_unnumbered]"
proof -
  have m: "mount = \<lparr>halls = [], selectedHallId = 1, seats = [], seatsLoading = True,
                    selectedSeat = None, hallsInFlight = 1, seatsInFlight = [1],
                    consoleErrors = 0\<rparr>"
    by (simp add: mount_def first_render_def fetchHalls_def fetchSeats_def truthy_def)
  have a: "selectedHallId hall_A_loaded = 1" "seatsInFlight hall_A_loaded = []"
     "seats hall_A_loaded = example_seats"
    by (simp_all add: hall_A_loaded_def layout_run_def m fetchSeats_resolved_def)
  have h: "2 \<noteq> selectedHallId hall_A_loaded \<and> truthy 2"
    by (simp add: a truthy_def)
  have e1: "\<forall>e\<in>set [Refresh, SeatsRejected 2, HallsResolved example_halls,
                        SeatClick example_unnumbered, SelectHall 1, HallsRejected].
              \<not> seats_response e"
    by simp
  have e2: "\<forall>e\<in>set [Refresh, SeatsRejected 1, HallsResolved example_halls,
                        SeatClick example_unnumbered].
              \<not> seats_response e \<and> e \<noteq> SeatsRejected 2"
    by simp
  note t1 = select_hall_refetches
              [of 2 hall_A_loaded
                  "[Refresh, SeatsRejected 2, HallsResolved example_halls,
                    SeatClick example_unnumbered, SelectHall 1, HallsRejected]"
                  "[example_unnumbered]", THEN mp, OF h]
  note t2 = select_hall_refetches
              [of 2 hall_A_loaded
                  "[Refresh, SeatsRejected 1, HallsResolved example_halls,
                    SeatClick example_unnumbered]"
                  "[example_unnumbered]", THEN mp, OF h]
  note k1 = t1 [THEN conjunct1] t1 [THEN conjunct2, THEN conjunct1]
    t1 [THEN conjunct2, THEN conjunct2, THEN conjunct1]
    t1 [THEN conjunct2, THEN conjunct2, THEN conjunct2, THEN conjunct1, THEN mp, OF e1]
    t1 [THEN conjunct2, THEN conjunct2, THEN conjunct2, THEN conjunct2, THEN conjunct1]
  note k2 = t2 [THEN conjunct2, THEN conjunct2, THEN conjunct2, THEN conjunct2, THEN conjunct2,
                THEN mp, OF e2]
  show ?thesis
    using k1 k2 by (simp add: a del: layout_step.simps)
qed

end
